theory Spec2Isabelle
  imports Main "HOL-Library.Word"
begin

section \<open>State replay of the beacon chain (stategen/replay.go)\<close>

text \<open>
  The development embeds the five functions of \<^verbatim>\<open>beacon-chain/state/stategen/replay.go\<close>:
  \<^verbatim>\<open>replayBlocks\<close>, \<^verbatim>\<open>loadBlocks\<close>, \<^verbatim>\<open>executeStateTransitionStateGen\<close>,
  \<^verbatim>\<open>ReplayProcessSlots\<close> and \<^verbatim>\<open>loadFinalizedBlocks\<close>. Logging, tracing spans and the
  latency histogram have no influence on the returned values and are left out.
\<close>

subsection \<open>Data model\<close>

text \<open>
  \<^verbatim>\<open>primitives.Slot\<close> is a \<^verbatim>\<open>uint64\<close>; a block root is a \<^verbatim>\<open>[32]byte\<close>, of which the code
  only uses equality, read here as one 256-bit value.
\<close>

type_synonym slot = "64 word"
type_synonym root = "256 word"

text \<open>
  What \<^verbatim>\<open>ctx.Err()\<close> can return when it is not nil. A context is seen by this file only
  through \<^verbatim>\<open>Err\<close>; its answer is taken as fixed while one operation runs.
\<close>

datatype ctx_error = Canceled | DeadlineExceeded

record "context" =
  Err :: "ctx_error option"

text \<open>
  The errors the file returns. \<open>External\<close> carries an error that a collaborator built for
  itself (a transition primitive, or the block store when its query fails);
  \<open>SlotProcessingFailed\<close> and \<open>BlockProcessingFailed\<close> are the two \<^verbatim>\<open>errors.Wrap\<close> calls.
  \<open>NilDereference\<close> is not an error value of the program: it stands for the run-time panic
  of a method call on a nil state or a nil block.
\<close>

datatype error =
    InvalidRange slot slot
  | StoreInconsistency
  | TerminalNotFound
  | UnknownState
  | SlotRegression slot slot
  | NilBlock
  | SlotProcessingFailed error
  | BlockProcessingFailed error
  | Cancelled ctx_error
  | External string
  | NilDereference

text \<open>
  A beacon state is opaque apart from its slot. A value of type \<open>'c beacon_state option\<close>
  is a Go \<^verbatim>\<open>state.BeaconState\<close> interface value: \<open>None\<close> is nil (or \<^verbatim>\<open>IsNil()\<close>).
\<close>

record 'c beacon_state =
  Slot :: slot
  Content :: 'c

text \<open>
  A signed block exposes \<^verbatim>\<open>Block().Slot()\<close> and \<^verbatim>\<open>Block().ParentRoot()\<close>; the rest is opaque.
  A value of type \<open>signed_block option\<close> is a \<^verbatim>\<open>ReadOnlySignedBeaconBlock\<close> interface
  value, \<open>None\<close> being nil.
\<close>

record signed_block =
  BlockSlot :: slot
  ParentRoot :: root
  Body :: nat

text \<open>\<^verbatim>\<open>filters.NewFilter().SetStartSlot(startSlot).SetEndSlot(endSlot)\<close>\<close>

record query_filter =
  StartSlot :: slot
  EndSlot :: slot

text \<open>
  The block store \<^verbatim>\<open>s.beaconDB\<close>, of which the file calls \<^verbatim>\<open>Blocks\<close> and
  \<^verbatim>\<open>IsFinalizedBlock\<close>. The store is not part of this file and is a parameter. An error
  of \<^verbatim>\<open>Blocks\<close> may be any error value, and the file returns it as it is (lines 87 and 198).
\<close>

record beacon_db =
  Blocks :: "context \<Rightarrow> query_filter \<Rightarrow> error + (signed_block option list \<times> root list)"
  IsFinalizedBlock :: "context \<Rightarrow> root \<Rightarrow> bool"

text \<open>
  The two transition primitives of package \<^verbatim>\<open>transition\<close>, parameters as well:
  \<^verbatim>\<open>ProcessSlotsCore(ctx, span, state, slot, nil)\<close> and
  \<^verbatim>\<open>ProcessBlockForStateRoot(ctx, state, signed)\<close>. Each returns an error of its own or a
  state that is not nil.
\<close>

record 'c transition =
  ProcessSlotsCore :: "context \<Rightarrow> 'c beacon_state \<Rightarrow> slot \<Rightarrow> string + 'c beacon_state"
  ProcessBlockForStateRoot ::
    "context \<Rightarrow> 'c beacon_state \<Rightarrow> signed_block \<Rightarrow> string + 'c beacon_state"

subsection \<open>ReplayProcessSlots (lines 174-190)\<close>

definition ReplayProcessSlots ::
  "'c transition \<Rightarrow> context \<Rightarrow> 'c beacon_state option \<Rightarrow> slot \<Rightarrow> error + 'c beacon_state"
where
  "ReplayProcessSlots tr ctx state slot =
     (case state of
        None \<Rightarrow> Inl UnknownState
      | Some st \<Rightarrow>
          if Slot st > slot then Inl (SlotRegression (Slot st) slot)
          else if Slot st = slot then Inr st
          else (case ProcessSlotsCore tr ctx st slot of
                  Inl err \<Rightarrow> Inl (External err)
                | Inr st' \<Rightarrow> Inr st'))"

subsection \<open>executeStateTransitionStateGen (lines 138-168)\<close>

definition executeStateTransitionStateGen ::
  "'c transition \<Rightarrow> context \<Rightarrow> 'c beacon_state option \<Rightarrow> signed_block option
     \<Rightarrow> error + 'c beacon_state"
where
  "executeStateTransitionStateGen tr ctx state signedBlock =
     (case Err ctx of
        Some e \<Rightarrow> Inl (Cancelled e)
      | None \<Rightarrow>
          (case signedBlock of
             None \<Rightarrow> Inl NilBlock
           | Some b \<Rightarrow>
               (case ReplayProcessSlots tr ctx state (BlockSlot b) of
                  Inl err \<Rightarrow> Inl (SlotProcessingFailed err)
                | Inr st \<Rightarrow>
                    (case ProcessBlockForStateRoot tr ctx st b of
                       Inl err \<Rightarrow> Inl (BlockProcessingFailed (External err))
                     | Inr st' \<Rightarrow> Inr st'))))"

subsection \<open>replayBlocks (lines 22-75)\<close>

text \<open>
  The loop \<^verbatim>\<open>for i := len(signed) - 1; i >= 0; i--\<close>. The last argument is \<open>i + 1\<close>, so
  that \<open>0\<close> is the exit of the loop and \<open>Suc i\<close> the iteration at index \<open>i\<close>. \<^verbatim>\<open>break\<close>
  returns the current state, \<^verbatim>\<open>continue\<close> goes to index \<open>i - 1\<close> with the state as it is.
\<close>

fun replay_loop ::
  "'c transition \<Rightarrow> context \<Rightarrow> 'c beacon_state \<Rightarrow> signed_block option list \<Rightarrow> slot \<Rightarrow> nat
     \<Rightarrow> error + 'c beacon_state"
where
  "replay_loop tr ctx state signedBlocks targetSlot 0 = Inr state"
| "replay_loop tr ctx state signedBlocks targetSlot (Suc i) =
     (case Err ctx of
        Some e \<Rightarrow> Inl (Cancelled e)
      | None \<Rightarrow>
          if Slot state \<ge> targetSlot then Inr state
          else (case signedBlocks ! i of
                  None \<Rightarrow> Inl NilDereference
                | Some b \<Rightarrow>
                    if Slot state \<ge> BlockSlot b then replay_loop tr ctx state signedBlocks targetSlot i
                    else (case executeStateTransitionStateGen tr ctx (Some state) (signedBlocks ! i) of
                            Inl err \<Rightarrow> Inl err
                          | Inr state' \<Rightarrow> replay_loop tr ctx state' signedBlocks targetSlot i)))"

text \<open>
  \<^verbatim>\<open>state.Slot()\<close> is read for the log fields before anything else (line 34), which panics
  on a nil state.
\<close>

definition replayBlocks ::
  "'c transition \<Rightarrow> context \<Rightarrow> 'c beacon_state option \<Rightarrow> signed_block option list \<Rightarrow> slot
     \<Rightarrow> error + 'c beacon_state"
where
  "replayBlocks tr ctx state signedBlocks targetSlot =
     (case state of
        None \<Rightarrow> Inl NilDereference
      | Some st \<Rightarrow>
          (case (if length signedBlocks > 0 then replay_loop tr ctx st signedBlocks targetSlot (length signedBlocks)
                 else Inr st) of
             Inl err \<Rightarrow> Inl err
           | Inr st' \<Rightarrow>
               if targetSlot > Slot st' then ReplayProcessSlots tr ctx (Some st') targetSlot
               else Inr st'))"

subsection \<open>loadBlocks (lines 79-131)\<close>

text \<open>
  The first loop (lines 102-111), on the variable \<^verbatim>\<open>length\<close>; it returns the narrowed
  length. The condition reads \<^verbatim>\<open>blocks[length-1]\<close> and \<^verbatim>\<open>blocks[length-2]\<close> before it
  compares the root, so a nil block there panics.
\<close>

function narrow_loop ::
  "context \<Rightarrow> signed_block option list \<Rightarrow> root list \<Rightarrow> root \<Rightarrow> nat \<Rightarrow> error + nat"
where
  "narrow_loop ctx blocks blockRoots endBlockRoot len =
     (if len \<ge> 3 then
        (case (blocks ! (len - 1), blocks ! (len - 2)) of
           (Some b1, Some b2) \<Rightarrow>
             if BlockSlot b1 = BlockSlot b2 \<and> blockRoots ! (len - 1) \<noteq> endBlockRoot then
               (case Err ctx of
                  Some e \<Rightarrow> Inl (Cancelled e)
                | None \<Rightarrow>
                    if blockRoots ! (len - 1 - 2) = endBlockRoot then Inr (len - 1 - 1)
                    else narrow_loop ctx blocks blockRoots endBlockRoot (len - 1))
             else Inr len
         | _ \<Rightarrow> Inl NilDereference)
      else Inr len)"
  by pat_completeness auto
termination
  by (relation "measure (\<lambda>(ctx, blocks, blockRoots, endBlockRoot, len). len)") auto

declare narrow_loop.simps [simp del]

text \<open>
  The second loop (lines 119-128), \<^verbatim>\<open>for i := length - 2; i >= 0; i--\<close>, with \<open>i + 1\<close> as
  the counter as in \<open>replay_loop\<close>. \<open>filteredBlocks\<close> is never empty here.
\<close>

fun filter_loop ::
  "context \<Rightarrow> signed_block option list \<Rightarrow> root list \<Rightarrow> nat \<Rightarrow> signed_block option list
     \<Rightarrow> error + signed_block option list"
where
  "filter_loop ctx blocks blockRoots 0 filteredBlocks = Inr filteredBlocks"
| "filter_loop ctx blocks blockRoots (Suc i) filteredBlocks =
     (case Err ctx of
        Some e \<Rightarrow> Inl (Cancelled e)
      | None \<Rightarrow>
          (case last filteredBlocks of
             None \<Rightarrow> Inl NilDereference
           | Some b \<Rightarrow>
               if ParentRoot b \<noteq> blockRoots ! i then filter_loop ctx blocks blockRoots i filteredBlocks
               else filter_loop ctx blocks blockRoots i (filteredBlocks @ [blocks ! i])))"

definition loadBlocks ::
  "beacon_db \<Rightarrow> context \<Rightarrow> slot \<Rightarrow> slot \<Rightarrow> root \<Rightarrow> error + signed_block option list"
where
  "loadBlocks db ctx startSlot endSlot endBlockRoot =
     (if startSlot > endSlot then Inl (InvalidRange startSlot endSlot)
      else (case Blocks db ctx \<lparr>StartSlot = startSlot, EndSlot = endSlot\<rparr> of
              Inl err \<Rightarrow> Inl err
            | Inr (blocks, blockRoots) \<Rightarrow>
                if length blocks \<noteq> length blockRoots then Inl StoreInconsistency
                else if length blocks = 0 then Inr []
                else (case narrow_loop ctx blocks blockRoots endBlockRoot (length blocks) of
                        Inl err \<Rightarrow> Inl err
                      | Inr len \<Rightarrow>
                          if blockRoots ! (len - 1) \<noteq> endBlockRoot then Inl TerminalNotFound
                          else filter_loop ctx blocks blockRoots (len - 1) [blocks ! (len - 1)])))"

subsection \<open>loadFinalizedBlocks (lines 194-210)\<close>

text \<open>The loop \<^verbatim>\<open>for i := len(bs) - 1; i >= 0; i--\<close>, counter \<open>i + 1\<close>.\<close>

fun finalized_loop ::
  "beacon_db \<Rightarrow> context \<Rightarrow> signed_block option list \<Rightarrow> root list \<Rightarrow> nat
     \<Rightarrow> signed_block option list \<Rightarrow> signed_block option list"
where
  "finalized_loop db ctx bs bRoots 0 fbs = fbs"
| "finalized_loop db ctx bs bRoots (Suc i) fbs =
     (if IsFinalizedBlock db ctx (bRoots ! i) then finalized_loop db ctx bs bRoots i (fbs @ [bs ! i])
      else finalized_loop db ctx bs bRoots i fbs)"

definition loadFinalizedBlocks ::
  "beacon_db \<Rightarrow> context \<Rightarrow> slot \<Rightarrow> slot \<Rightarrow> error + signed_block option list"
where
  "loadFinalizedBlocks db ctx startSlot endSlot =
     (case Blocks db ctx \<lparr>StartSlot = startSlot, EndSlot = endSlot\<rparr> of
        Inl err \<Rightarrow> Inl err
      | Inr (bs, bRoots) \<Rightarrow>
          if length bs \<noteq> length bRoots then Inl StoreInconsistency
          else Inr (finalized_loop db ctx bs bRoots (length bs) []))"

subsection \<open>Reference collaborators and the specification's algorithms\<close>

text \<open>
  Modelled from the spec: the transition primitives \<^verbatim>\<open>advance_slots_no_cache\<close> ("pure
  skip-slot advance", which "must itself honor cancellation") and \<^verbatim>\<open>apply_block_trusted\<close>
  ("full per-block transition") of section 6, whose code (package \<^verbatim>\<open>transition\<close>) is not in
  this file. The state's content is the list of the calls made so far, so that the order
  of the calls can be read off the result.
\<close>

datatype event = SlotsProcessed slot slot | BlockProcessed signed_block

definition trace_transition :: "event list transition" where
  "trace_transition =
     \<lparr>ProcessSlotsCore = (\<lambda>ctx st slot.
        (case Err ctx of
           Some e \<Rightarrow> Inl ''context canceled''
         | None \<Rightarrow> Inr (st\<lparr>Slot := slot, Content := Content st @ [SlotsProcessed (Slot st) slot]\<rparr>))),
      ProcessBlockForStateRoot = (\<lambda>ctx st b.
        Inr (st\<lparr>Content := Content st @ [BlockProcessed b]\<rparr>))\<rparr>"

fun applied_blocks :: "event list \<Rightarrow> signed_block list" where
  "applied_blocks [] = []"
| "applied_blocks (SlotsProcessed a b # evs) = applied_blocks evs"
| "applied_blocks (BlockProcessed b # evs) = b # applied_blocks evs"

text \<open>
  The algorithm of section 4.5 of the specification, steps 1 to 7, written from its words
  over the blocks given oldest first: cancellation before each block (step 2), stop when
  the target is reached (step 3), skip a block that is not ahead of the state (step 4),
  apply the block otherwise and give up on a failure (step 5), advance over the trailing
  slots (step 6). \<open>TrustedBlockApplier.apply\<close> and \<open>SlotAdvancer.advance\<close> are the two
  functions embedded above.
\<close>

fun spec_replay ::
  "'c transition \<Rightarrow> context \<Rightarrow> 'c beacon_state \<Rightarrow> signed_block list \<Rightarrow> slot
     \<Rightarrow> error + 'c beacon_state"
where
  "spec_replay tr ctx st [] target =
     (if target > Slot st then ReplayProcessSlots tr ctx (Some st) target else Inr st)"
| "spec_replay tr ctx st (b # bs) target =
     (case Err ctx of
        Some e \<Rightarrow> Inl (Cancelled e)
      | None \<Rightarrow>
          if Slot st \<ge> target then Inr st
          else if Slot st \<ge> BlockSlot b then spec_replay tr ctx st bs target
          else (case executeStateTransitionStateGen tr ctx (Some st) (Some b) of
                  Inl err \<Rightarrow> Inl err
                | Inr st' \<Rightarrow> spec_replay tr ctx st' bs target))"

text \<open>
  The same algorithm as the list of primitive calls it makes when no call fails and nothing
  is cancelled.
\<close>

fun spec_replay_events :: "slot \<Rightarrow> signed_block list \<Rightarrow> slot \<Rightarrow> event list" where
  "spec_replay_events cur [] target = (if target > cur then [SlotsProcessed cur target] else [])"
| "spec_replay_events cur (b # bs) target =
     (if cur \<ge> target then []
      else if cur \<ge> BlockSlot b then spec_replay_events cur bs target
      else SlotsProcessed cur (BlockSlot b) # BlockProcessed b
             # spec_replay_events (BlockSlot b) bs target)"

text \<open>The slot at which the same algorithm leaves the state.\<close>

fun spec_replay_slot :: "slot \<Rightarrow> signed_block list \<Rightarrow> slot \<Rightarrow> slot" where
  "spec_replay_slot cur [] target = (if target > cur then target else cur)"
| "spec_replay_slot cur (b # bs) target =
     (if cur \<ge> target then cur
      else if cur \<ge> BlockSlot b then spec_replay_slot cur bs target
      else spec_replay_slot (BlockSlot b) bs target)"

text \<open>
  The terminal disambiguation of section 4.1 of the specification, written from its words:
  while the two newest entries of the window share the same slot and the newest root is not
  the terminal root, drop the newest entry. The result is the length of the narrowed window.
\<close>

function spec_narrow :: "signed_block list \<Rightarrow> root list \<Rightarrow> root \<Rightarrow> nat \<Rightarrow> nat" where
  "spec_narrow blocks blockRoots terminal len =
     (if len \<ge> 2 \<and> BlockSlot (blocks ! (len - 1)) = BlockSlot (blocks ! (len - 2))
         \<and> blockRoots ! (len - 1) \<noteq> terminal
      then spec_narrow blocks blockRoots terminal (len - 1)
      else len)"
  by pat_completeness auto
termination
  by (relation "measure (\<lambda>(blocks, blockRoots, terminal, len). len)") auto

declare spec_narrow.simps [simp del]

text \<open>
  A block store that answers every query with the same blocks and roots and takes the
  roots in \<open>fin\<close> as finalized; it looks neither at the context nor at the range.
\<close>

definition fixed_store :: "signed_block option list \<Rightarrow> root list \<Rightarrow> root list \<Rightarrow> beacon_db" where
  "fixed_store blocks blockRoots fin =
     \<lparr>Blocks = (\<lambda>ctx f. Inr (blocks, blockRoots)),
      IsFinalizedBlock = (\<lambda>ctx r. r \<in> set fin)\<rparr>"

text \<open>
  A block store whose query fails with an error of its own whatever it is asked (a closed
  database, a failed read).
\<close>

definition failing_store :: "string \<Rightarrow> beacon_db" where
  "failing_store msg =
     \<lparr>Blocks = (\<lambda>ctx f. Inl (External msg)),
      IsFinalizedBlock = (\<lambda>ctx r. False)\<rparr>"

text \<open>
  A block store that keeps the range invariant of section 3 of the specification: it
  answers an inverted range with a range error, and a range in order with the stored blocks
  whose slot lies in it (\<open>stored\<close> pairs each block with its root).
\<close>

definition range_store :: "(signed_block \<times> root) list \<Rightarrow> root list \<Rightarrow> beacon_db" where
  "range_store stored fin =
     \<lparr>Blocks = (\<lambda>ctx f.
        if StartSlot f > EndSlot f then Inl (InvalidRange (StartSlot f) (EndSlot f))
        else (let hits = filter (\<lambda>(b, r). StartSlot f \<le> BlockSlot b \<and> BlockSlot b \<le> EndSlot f) stored
              in Inr (map (Some \<circ> fst) hits, map snd hits))),
      IsFinalizedBlock = (\<lambda>ctx r. r \<in> set fin)\<rparr>"

section \<open>Properties\<close>

subsection \<open>Facts about the reference primitives\<close>

lemma trace_transition_slots_land:
  "\<forall>c s t s'. ProcessSlotsCore trace_transition c s t = Inr s' \<longrightarrow> t \<le> Slot s'"
  by (auto simp: trace_transition_def split: option.splits)

lemma trace_transition_slots_mono:
  "\<forall>c s t s'. Slot s \<le> t \<longrightarrow> ProcessSlotsCore trace_transition c s t = Inr s'
     \<longrightarrow> Slot s \<le> Slot s'"
  by (auto simp: trace_transition_def split: option.splits)

lemma trace_transition_block_mono:
  "\<forall>c s b s'. ProcessBlockForStateRoot trace_transition c s b = Inr s' \<longrightarrow> Slot s \<le> Slot s'"
  by (auto simp: trace_transition_def)

subsection \<open>The slot advancer\<close>

text \<open>
  Claim C7. \<^verbatim>\<open>ReplayProcessSlots\<close> on a nil state fails with \<open>UnknownState\<close>; on a state that
  is not nil it fails with \<open>SlotRegression\<close> exactly when the target is below the state's
  slot; and when the target is the state's slot it returns the very state it was given,
  whatever the transition primitive would do (so the primitive is not consulted). An error
  raised inside the primitive is a value \<open>External\<close>, the error built on line 181 is
  \<open>SlotRegression\<close>.
\<close>

theorem ReplayProcessSlots_boundary:
  "ReplayProcessSlots tr ctx None target = Inl UnknownState
   \<and> ((\<exists>a b. ReplayProcessSlots tr ctx (Some st) target = Inl (SlotRegression a b))
        = (target < Slot st))
   \<and> ((ReplayProcessSlots tr ctx (Some st) target = Inl (SlotRegression (Slot st) target))
        = (target < Slot st))
   \<and> (\<forall>tr'. ReplayProcessSlots tr' ctx (Some st) (Slot st) = Inr st)"
  by (auto simp: ReplayProcessSlots_def split: sum.splits)

subsection \<open>Replay with no blocks\<close>

text \<open>
  Claim C5. For a state that is not nil and a target above its slot, \<^verbatim>\<open>replayBlocks\<close> on
  the empty segment returns what \<^verbatim>\<open>ReplayProcessSlots\<close> returns on the same state and
  target, be it a state or an error.
\<close>

theorem replayBlocks_empty_segment:
  "target > Slot st \<Longrightarrow>
     replayBlocks tr ctx (Some st) [] target = ReplayProcessSlots tr ctx (Some st) target"
  by (simp add: replayBlocks_def)

theorem replayBlocks_empty_segment_witness:
  "(20 :: slot) > Slot \<lparr>Slot = 10, Content = []\<rparr>
   \<and> replayBlocks trace_transition \<lparr>Err = None\<rparr> (Some \<lparr>Slot = 10, Content = []\<rparr>) [] 20
       = ReplayProcessSlots trace_transition \<lparr>Err = None\<rparr> (Some \<lparr>Slot = 10, Content = []\<rparr>) 20
   \<and> ReplayProcessSlots trace_transition \<lparr>Err = None\<rparr> (Some \<lparr>Slot = 10, Content = []\<rparr>) 20
       = Inr \<lparr>Slot = 20, Content = [SlotsProcessed 10 20]\<rparr>"
proof -
  have h: "(20 :: slot) > Slot \<lparr>Slot = 10, Content = ([] :: event list)\<rparr>" by simp
  show ?thesis
    using h replayBlocks_empty_segment [OF h, of trace_transition "\<lparr>Err = None\<rparr>"]
    by (simp add: ReplayProcessSlots_def trace_transition_def)
qed

subsection \<open>The slot never regresses\<close>

lemma ReplayProcessSlots_mono:
  assumes "\<forall>c s t s'. Slot s \<le> t \<longrightarrow> ProcessSlotsCore tr c s t = Inr s' \<longrightarrow> Slot s \<le> Slot s'"
  shows "ReplayProcessSlots tr ctx (Some st) target = Inr st' \<Longrightarrow> Slot st \<le> Slot st'"
proof -
  assume r: "ReplayProcessSlots tr ctx (Some st) target = Inr st'"
  then have le: "Slot st \<le> target"
    by (auto simp: ReplayProcessSlots_def split: if_splits)
  show ?thesis
  proof (cases "Slot st = target")
    case True
    with r show ?thesis by (simp add: ReplayProcessSlots_def)
  next
    case False
    with r le have "ProcessSlotsCore tr ctx st target = Inr st'"
      by (auto simp: ReplayProcessSlots_def split: if_splits sum.splits)
    with assms le show ?thesis by blast
  qed
qed

lemma executeStateTransitionStateGen_mono:
  assumes "\<forall>c s t s'. Slot s \<le> t \<longrightarrow> ProcessSlotsCore tr c s t = Inr s' \<longrightarrow> Slot s \<le> Slot s'"
      and "\<forall>c s b s'. ProcessBlockForStateRoot tr c s b = Inr s' \<longrightarrow> Slot s \<le> Slot s'"
  shows "executeStateTransitionStateGen tr ctx (Some st) blk = Inr st' \<Longrightarrow> Slot st \<le> Slot st'"
proof -
  assume "executeStateTransitionStateGen tr ctx (Some st) blk = Inr st'"
  then obtain b mid where "blk = Some b"
    and m: "ReplayProcessSlots tr ctx (Some st) (BlockSlot b) = Inr mid"
    and p: "ProcessBlockForStateRoot tr ctx mid b = Inr st'"
    by (auto simp: executeStateTransitionStateGen_def split: option.splits sum.splits)
  from ReplayProcessSlots_mono [OF assms(1) m] have "Slot st \<le> Slot mid" .
  moreover from assms(2) p have "Slot mid \<le> Slot st'" by blast
  ultimately show ?thesis by (rule order_trans)
qed

lemma replay_loop_mono:
  assumes "\<forall>c s t s'. Slot s \<le> t \<longrightarrow> ProcessSlotsCore tr c s t = Inr s' \<longrightarrow> Slot s \<le> Slot s'"
      and "\<forall>c s b s'. ProcessBlockForStateRoot tr c s b = Inr s' \<longrightarrow> Slot s \<le> Slot s'"
  shows "replay_loop tr ctx st seg target n = Inr st' \<Longrightarrow> Slot st \<le> Slot st'"
proof (induction n arbitrary: st)
  case 0
  then show ?case by simp
next
  case (Suc n)
  show ?case
  proof (cases "Err ctx")
    case (Some e)
    with Suc.prems show ?thesis by simp
  next
    case None
    show ?thesis
    proof (cases "target \<le> Slot st")
      case True
      with None Suc.prems show ?thesis by simp
    next
      case False
      with None Suc.prems obtain b where b: "seg ! n = Some b"
        by (auto split: option.splits)
      show ?thesis
      proof (cases "BlockSlot b \<le> Slot st")
        case True
        with None False b Suc.prems have "replay_loop tr ctx st seg target n = Inr st'" by simp
        then show ?thesis by (rule Suc.IH)
      next
        case behind: False
        with None False b Suc.prems obtain mid where
          e: "executeStateTransitionStateGen tr ctx (Some st) (Some b) = Inr mid"
          and l: "replay_loop tr ctx mid seg target n = Inr st'"
          by (auto split: sum.splits)
        from executeStateTransitionStateGen_mono [OF assms e] have "Slot st \<le> Slot mid" .
        moreover from Suc.IH [OF l] have "Slot mid \<le> Slot st'" .
        ultimately show ?thesis by (rule order_trans)
      qed
    qed
  qed
qed

lemma replayBlocks_mono:
  assumes "\<forall>c s t s'. Slot s \<le> t \<longrightarrow> ProcessSlotsCore tr c s t = Inr s' \<longrightarrow> Slot s \<le> Slot s'"
      and "\<forall>c s b s'. ProcessBlockForStateRoot tr c s b = Inr s' \<longrightarrow> Slot s \<le> Slot s'"
  shows "replayBlocks tr ctx (Some st) seg target = Inr st' \<Longrightarrow> Slot st \<le> Slot st'"
proof -
  assume "replayBlocks tr ctx (Some st) seg target = Inr st'"
  then obtain mid where l: "replay_loop tr ctx st seg target (length seg) = Inr mid"
    and f: "(if target > Slot mid then ReplayProcessSlots tr ctx (Some mid) target else Inr mid)
              = Inr st'"
    by (cases "seg = []") (auto simp: replayBlocks_def split: sum.splits)
  from replay_loop_mono [OF assms l] have a: "Slot st \<le> Slot mid" .
  have "Slot mid \<le> Slot st'"
  proof (cases "target > Slot mid")
    case True
    with f have "ReplayProcessSlots tr ctx (Some mid) target = Inr st'" by simp
    then show ?thesis by (rule ReplayProcessSlots_mono [OF assms(1)])
  next
    case False
    with f show ?thesis by simp
  qed
  with a show ?thesis by (rule order_trans)
qed

text \<open>
  Claim C4. Suppose neither transition primitive ever returns a state with a smaller slot
  than the one it was given (for the slot primitive: when it is asked for a slot that is
  not behind the state). Then \<^verbatim>\<open>ReplayProcessSlots\<close>, \<^verbatim>\<open>executeStateTransitionStateGen\<close>
  and \<^verbatim>\<open>replayBlocks\<close> never return a state whose slot is smaller than the slot of the
  state they were given.
\<close>

theorem slot_never_regresses:
  assumes "\<forall>c s t s'. Slot s \<le> t \<longrightarrow> ProcessSlotsCore tr c s t = Inr s' \<longrightarrow> Slot s \<le> Slot s'"
      and "\<forall>c s b s'. ProcessBlockForStateRoot tr c s b = Inr s' \<longrightarrow> Slot s \<le> Slot s'"
  shows "(\<forall>target st'. ReplayProcessSlots tr ctx (Some st) target = Inr st' \<longrightarrow> Slot st \<le> Slot st')
       \<and> (\<forall>blk st'. executeStateTransitionStateGen tr ctx (Some st) blk = Inr st'
             \<longrightarrow> Slot st \<le> Slot st')
       \<and> (\<forall>seg target st'. replayBlocks tr ctx (Some st) seg target = Inr st'
             \<longrightarrow> Slot st \<le> Slot st')"
  using ReplayProcessSlots_mono [OF assms(1)] executeStateTransitionStateGen_mono [OF assms]
    replayBlocks_mono [OF assms]
  by blast

theorem slot_never_regresses_witness:
  "replayBlocks trace_transition \<lparr>Err = None\<rparr> (Some \<lparr>Slot = 10, Content = []\<rparr>)
      [Some \<lparr>BlockSlot = 12, ParentRoot = 7, Body = 0\<rparr>] 11
     = Inr \<lparr>Slot = 12, Content = [SlotsProcessed 10 12,
              BlockProcessed \<lparr>BlockSlot = 12, ParentRoot = 7, Body = 0\<rparr>]\<rparr>
   \<and> Slot \<lparr>Slot = 10, Content = ([] :: event list)\<rparr>
       \<le> Slot \<lparr>Slot = 12, Content = [SlotsProcessed 10 12,
              BlockProcessed \<lparr>BlockSlot = 12, ParentRoot = 7, Body = 0\<rparr>]\<rparr>"
proof -
  have r: "replayBlocks trace_transition \<lparr>Err = None\<rparr> (Some \<lparr>Slot = 10, Content = []\<rparr>)
      [Some \<lparr>BlockSlot = 12, ParentRoot = 7, Body = 0\<rparr>] 11
     = Inr \<lparr>Slot = 12, Content = [SlotsProcessed 10 12,
              BlockProcessed \<lparr>BlockSlot = 12, ParentRoot = 7, Body = 0\<rparr>]\<rparr>"
    by (simp add: replayBlocks_def executeStateTransitionStateGen_def ReplayProcessSlots_def
        trace_transition_def)
  from slot_never_regresses [OF trace_transition_slots_mono trace_transition_block_mono,
      of "\<lparr>Err = None\<rparr>" "\<lparr>Slot = 10, Content = []\<rparr>"] r
  show ?thesis by blast
qed

subsection \<open>Where a successful replay ends\<close>

lemma replayBlocks_lands:
  assumes "\<forall>c s t s'. ProcessSlotsCore tr c s t = Inr s' \<longrightarrow> t \<le> Slot s'"
  shows "replayBlocks tr ctx state seg target = Inr st' \<Longrightarrow> target \<le> Slot st'"
  using assms
  by (auto simp: replayBlocks_def ReplayProcessSlots_def split: option.splits sum.splits if_splits)

lemma replayBlocks_block_beyond_target:
  "Slot st < target \<Longrightarrow> target < BlockSlot b \<Longrightarrow>
     replayBlocks trace_transition \<lparr>Err = None\<rparr> (Some st) [Some b] target
       = Inr (st\<lparr>Slot := BlockSlot b,
               Content := Content st @ [SlotsProcessed (Slot st) (BlockSlot b), BlockProcessed b]\<rparr>)"
  by (auto simp: replayBlocks_def executeStateTransitionStateGen_def ReplayProcessSlots_def
      trace_transition_def)

text \<open>
  Claim C10. If the slot primitive never stops short of the slot it is asked for, a
  successful \<^verbatim>\<open>replayBlocks\<close> returns a state whose slot is at least the target. It need
  not be the target: the loop compares a block's slot with the state's slot only, so a
  block beyond the target is applied and the state is returned at that block's slot, with
  no trailing call of \<^verbatim>\<open>ReplayProcessSlots\<close> (the content holds the two calls of the block
  only).
\<close>

theorem replayBlocks_at_least_target:
  "((\<forall>c s t s'. ProcessSlotsCore tr c s t = Inr s' \<longrightarrow> t \<le> Slot s')
      \<longrightarrow> replayBlocks tr ctx state seg target = Inr st' \<longrightarrow> target \<le> Slot st')
   \<and> (Slot st < target \<longrightarrow> target < BlockSlot b \<longrightarrow>
        replayBlocks trace_transition \<lparr>Err = None\<rparr> (Some st) [Some b] target
          = Inr (st\<lparr>Slot := BlockSlot b,
                  Content := Content st @ [SlotsProcessed (Slot st) (BlockSlot b), BlockProcessed b]\<rparr>)
        \<and> target < BlockSlot b)"
  using replayBlocks_lands [of tr ctx state seg target st']
    replayBlocks_block_beyond_target [of st target b]
  by blast

theorem replayBlocks_at_least_target_witness:
  "replayBlocks trace_transition \<lparr>Err = None\<rparr> (Some \<lparr>Slot = 10, Content = []\<rparr>)
      [Some \<lparr>BlockSlot = 15, ParentRoot = 7, Body = 0\<rparr>] 12
     = Inr \<lparr>Slot = 15, Content = [SlotsProcessed 10 15,
              BlockProcessed \<lparr>BlockSlot = 15, ParentRoot = 7, Body = 0\<rparr>]\<rparr>
   \<and> (12 :: slot) \<le> 15 \<and> (12 :: slot) < 15"
proof -
  have c: "\<forall>c s t s'. ProcessSlotsCore trace_transition c s t = Inr s' \<longrightarrow> t \<le> Slot s'"
    by (rule trace_transition_slots_land)
  have a: "Slot \<lparr>Slot = 10, Content = ([] :: event list)\<rparr> < (12 :: slot)" by simp
  have b: "(12 :: slot) < BlockSlot \<lparr>BlockSlot = 15, ParentRoot = 7, Body = 0\<rparr>" by simp
  from replayBlocks_at_least_target [of trace_transition "\<lparr>Err = None\<rparr>"
      "Some \<lparr>Slot = 10, Content = []\<rparr>" "[Some \<lparr>BlockSlot = 15, ParentRoot = 7, Body = 0\<rparr>]" 12
      "\<lparr>Slot = 15, Content = [SlotsProcessed 10 15,
              BlockProcessed \<lparr>BlockSlot = 15, ParentRoot = 7, Body = 0\<rparr>]\<rparr>"
      "\<lparr>Slot = 10, Content = []\<rparr>" "\<lparr>BlockSlot = 15, ParentRoot = 7, Body = 0\<rparr>"] c a b
  show ?thesis by simp
qed

subsection \<open>Blocks at or behind the state\<close>

lemma replay_loop_target_reached:
  "Err ctx = None \<Longrightarrow> target \<le> Slot st \<Longrightarrow> replay_loop tr ctx st seg target n = Inr st"
  by (cases n) simp_all

lemma replay_loop_cancelled:
  "Err ctx = Some e \<Longrightarrow> replay_loop tr ctx st seg target (Suc i) = Inl (Cancelled e)"
  by simp

lemma replay_loop_prefix:
  "n \<le> length xs \<Longrightarrow>
     replay_loop tr ctx st (xs @ ys) target n = replay_loop tr ctx st xs target n"
proof (induction n arbitrary: st)
  case 0
  show ?case by simp
next
  case (Suc n)
  then have "(xs @ ys) ! n = xs ! n" and "n \<le> length xs"
    by (simp_all add: nth_append)
  with Suc.IH show ?case
    by (simp split: option.splits sum.splits)
qed

lemma replay_loop_skips:
  assumes "Err ctx = None" and "\<forall>b\<in>set old. BlockSlot b \<le> Slot st" and "n \<le> length old"
  shows "replay_loop tr ctx st (rest @ map Some old) target (length rest + n)
           = replay_loop tr ctx st (rest @ map Some old) target (length rest)"
  using assms(3)
proof (induction n)
  case 0
  show ?case by simp
next
  case (Suc n)
  then have n: "n < length old" by simp
  then have at: "(rest @ map Some old) ! (length rest + n) = Some (old ! n)"
    by (simp add: nth_append)
  from n assms(2) have behind: "BlockSlot (old ! n) \<le> Slot st" by simp
  show ?case
  proof (cases "target \<le> Slot st")
    case True
    with assms(1) show ?thesis by (simp add: replay_loop_target_reached)
  next
    case False
    with assms(1) at behind Suc.IH n show ?thesis by simp
  qed
qed

text \<open>
  Claim C6, as amended. Let the oldest blocks of a segment (its last elements) all have a
  slot at or before the slot of the state. \<^verbatim>\<open>replayBlocks\<close> returns the same result, state
  or error, on the full segment and on the segment without those blocks, unless the
  context is cancelled and the removal leaves no block where there was one.
\<close>

theorem replayBlocks_redundant_blocks:
  assumes "Err ctx = None \<or> rest \<noteq> [] \<or> old = []"
      and "\<forall>b\<in>set old. BlockSlot b \<le> Slot st"
  shows "replayBlocks tr ctx (Some st) (rest @ map Some old) target
           = replayBlocks tr ctx (Some st) rest target"
proof (cases "Err ctx")
  case None
  have "replay_loop tr ctx st (rest @ map Some old) target (length rest + length old)
          = replay_loop tr ctx st (rest @ map Some old) target (length rest)"
    by (rule replay_loop_skips [OF None assms(2)]) simp
  also have "\<dots> = replay_loop tr ctx st rest target (length rest)"
    by (rule replay_loop_prefix) simp
  finally have "replay_loop tr ctx st (rest @ map Some old) target (length (rest @ map Some old))
                  = replay_loop tr ctx st rest target (length rest)"
    by simp
  then show ?thesis
    by (cases "rest = []"; cases "old = []") (simp_all add: replayBlocks_def)
next
  case (Some e)
  show ?thesis
  proof (cases "old = []")
    case True
    then show ?thesis by simp
  next
    case False
    with Some assms(1) obtain k where k: "length rest = Suc k"
      by (cases rest) auto
    then have "length (rest @ map Some old) = Suc (k + length old)" by simp
    with Some k show ?thesis
      by (simp add: replayBlocks_def del: length_append)
  qed
qed

theorem replayBlocks_redundant_blocks_witness:
  "replayBlocks trace_transition \<lparr>Err = None\<rparr> (Some \<lparr>Slot = 10, Content = []\<rparr>)
      ([Some \<lparr>BlockSlot = 12, ParentRoot = 7, Body = 0\<rparr>]
         @ map Some [\<lparr>BlockSlot = 10, ParentRoot = 6, Body = 0\<rparr>, \<lparr>BlockSlot = 9, ParentRoot = 5, Body = 0\<rparr>]) 12
     = replayBlocks trace_transition \<lparr>Err = None\<rparr> (Some \<lparr>Slot = 10, Content = []\<rparr>)
         [Some \<lparr>BlockSlot = 12, ParentRoot = 7, Body = 0\<rparr>] 12
   \<and> replayBlocks trace_transition \<lparr>Err = None\<rparr> (Some \<lparr>Slot = 10, Content = []\<rparr>)
         [Some \<lparr>BlockSlot = 12, ParentRoot = 7, Body = 0\<rparr>] 12
     = Inr \<lparr>Slot = 12, Content = [SlotsProcessed 10 12,
              BlockProcessed \<lparr>BlockSlot = 12, ParentRoot = 7, Body = 0\<rparr>]\<rparr>"
proof -
  have a: "Err \<lparr>Err = None\<rparr> = None \<or> [Some \<lparr>BlockSlot = 12, ParentRoot = 7, Body = 0\<rparr>] \<noteq> []
      \<or> [\<lparr>BlockSlot = 10, ParentRoot = 6, Body = 0\<rparr>, \<lparr>BlockSlot = 9, ParentRoot = 5, Body = 0\<rparr>] = []"
    by simp
  have b: "\<forall>b\<in>set [\<lparr>BlockSlot = 10, ParentRoot = 6, Body = 0\<rparr>, \<lparr>BlockSlot = 9, ParentRoot = 5, Body = 0\<rparr>].
             BlockSlot b \<le> Slot \<lparr>Slot = 10, Content = ([] :: event list)\<rparr>"
    by simp
  have c: "replayBlocks trace_transition \<lparr>Err = None\<rparr> (Some \<lparr>Slot = 10, Content = []\<rparr>)
         [Some \<lparr>BlockSlot = 12, ParentRoot = 7, Body = 0\<rparr>] 12
     = Inr \<lparr>Slot = 12, Content = [SlotsProcessed 10 12,
              BlockProcessed \<lparr>BlockSlot = 12, ParentRoot = 7, Body = 0\<rparr>]\<rparr>"
    by (simp add: replayBlocks_def executeStateTransitionStateGen_def ReplayProcessSlots_def
        trace_transition_def)
  from replayBlocks_redundant_blocks [OF a b, of trace_transition 12] c
  show ?thesis by blast
qed

text \<open>
  The claim as it is stated fails under a cancelled context when every block is redundant:
  the full segment enters the loop, which returns the context's error at its head, while
  the empty segment has no loop and returns the state.
\<close>

theorem replayBlocks_redundant_blocks_counterexample:
  "BlockSlot \<lparr>BlockSlot = 5, ParentRoot = 4, Body = 0\<rparr> \<le> Slot \<lparr>Slot = 10, Content = ([] :: event list)\<rparr>
   \<and> replayBlocks trace_transition \<lparr>Err = Some Canceled\<rparr> (Some \<lparr>Slot = 10, Content = []\<rparr>)
        [Some \<lparr>BlockSlot = 5, ParentRoot = 4, Body = 0\<rparr>] 10
       = Inl (Cancelled Canceled)
   \<and> replayBlocks trace_transition \<lparr>Err = Some Canceled\<rparr> (Some \<lparr>Slot = 10, Content = []\<rparr>) [] 10
       = Inr \<lparr>Slot = 10, Content = []\<rparr>"
  by (simp add: replayBlocks_def)

subsection \<open>The order in which replay applies the blocks\<close>

lemma spec_replay_events_applied_above:
  "\<forall>b\<in>set (applied_blocks (spec_replay_events cur bs target)). cur < BlockSlot b"
proof (induction bs arbitrary: cur)
  case Nil
  show ?case by simp
next
  case (Cons a bs)
  show ?case
  proof (cases "target \<le> cur \<or> BlockSlot a \<le> cur")
    case True
    with Cons.IH [of cur] show ?thesis by auto
  next
    case False
    then have "cur < BlockSlot a" by (simp add: not_le)
    with False Cons.IH [of "BlockSlot a"] show ?thesis by auto
  qed
qed

lemma spec_replay_events_applied_increasing:
  "sorted_wrt (<) (map BlockSlot (applied_blocks (spec_replay_events cur bs target)))"
proof (induction bs arbitrary: cur)
  case Nil
  show ?case by simp
next
  case (Cons a bs)
  show ?case
  proof (cases "target \<le> cur \<or> BlockSlot a \<le> cur")
    case True
    with Cons.IH [of cur] show ?thesis by auto
  next
    case False
    with Cons.IH [of "BlockSlot a"] spec_replay_events_applied_above [of "BlockSlot a" bs target]
    show ?thesis by auto
  qed
qed

lemma spec_replay_events_applied_from_segment:
  "set (applied_blocks (spec_replay_events cur bs target)) \<subseteq> set bs"
  by (induction bs arbitrary: cur) auto

lemma trace_apply:
  "Err ctx = None \<Longrightarrow> Slot st < BlockSlot b \<Longrightarrow>
     executeStateTransitionStateGen trace_transition ctx (Some st) (Some b)
       = Inr \<lparr>Slot = BlockSlot b,
              Content = Content st @ [SlotsProcessed (Slot st) (BlockSlot b), BlockProcessed b]\<rparr>"
  by (auto simp: executeStateTransitionStateGen_def ReplayProcessSlots_def trace_transition_def)

lemma trace_advance:
  "Err ctx = None \<Longrightarrow> Slot st < target \<Longrightarrow>
     ReplayProcessSlots trace_transition ctx (Some st) target
       = Inr \<lparr>Slot = target, Content = Content st @ [SlotsProcessed (Slot st) target]\<rparr>"
  by (auto simp: ReplayProcessSlots_def trace_transition_def)

lemma trace_replay_loop:
  assumes "Err ctx = None"
  shows "n \<le> length seg \<Longrightarrow>
     (case replay_loop trace_transition ctx st (map Some seg) target n of
        Inl err \<Rightarrow> Inl err
      | Inr mid \<Rightarrow>
          if target > Slot mid then ReplayProcessSlots trace_transition ctx (Some mid) target
          else Inr mid)
     = Inr \<lparr>Slot = spec_replay_slot (Slot st) (rev (take n seg)) target,
            Content = Content st @ spec_replay_events (Slot st) (rev (take n seg)) target\<rparr>"
proof (induction n arbitrary: st)
  case 0
  show ?case
    by (cases "Slot st < target") (simp_all add: trace_advance [OF assms])
next
  case (Suc n)
  then have n: "n < length seg" by simp
  then have tk: "rev (take (Suc n) seg) = seg ! n # rev (take n seg)"
    by (simp add: take_Suc_conv_app_nth)
  from n have at: "map Some seg ! n = Some (seg ! n)" by simp
  from n have le: "n \<le> length seg" by simp
  show ?case
  proof (cases "target \<le> Slot st")
    case True
    then have "\<not> Slot st < target" by (simp add: not_less)
    with assms True show ?thesis by (simp add: tk)
  next
    case False
    show ?thesis
    proof (cases "BlockSlot (seg ! n) \<le> Slot st")
      case True
      with assms False at Suc.IH [OF le, of st] show ?thesis by (simp add: tk)
    next
      case ahead: False
      then have lt: "Slot st < BlockSlot (seg ! n)" by simp
      let ?mid = "\<lparr>Slot = BlockSlot (seg ! n),
        Content = Content st @ [SlotsProcessed (Slot st) (BlockSlot (seg ! n)), BlockProcessed (seg ! n)]\<rparr>"
      have step: "replay_loop trace_transition ctx st (map Some seg) target (Suc n)
                    = replay_loop trace_transition ctx ?mid (map Some seg) target n"
        using assms False ahead at trace_apply [OF assms lt] by simp
      show ?thesis
        unfolding step using Suc.IH [OF le, of ?mid] False ahead by (simp add: tk)
    qed
  qed
qed

lemma replay_loop_spec:
  "n \<le> length seg \<Longrightarrow>
     (case replay_loop tr ctx st (map Some seg) target n of
        Inl err \<Rightarrow> Inl err
      | Inr mid \<Rightarrow>
          if target > Slot mid then ReplayProcessSlots tr ctx (Some mid) target else Inr mid)
     = spec_replay tr ctx st (rev (take n seg)) target"
proof (induction n arbitrary: st)
  case 0
  show ?case by simp
next
  case (Suc n)
  then have n: "n < length seg" by simp
  then have tk: "rev (take (Suc n) seg) = seg ! n # rev (take n seg)"
    by (simp add: take_Suc_conv_app_nth)
  from n have at: "map Some seg ! n = Some (seg ! n)" by simp
  from n have le: "n \<le> length seg" by simp
  show ?case
  proof (cases "Err ctx")
    case (Some e)
    then show ?thesis by (simp add: tk)
  next
    case None
    show ?thesis
    proof (cases "target \<le> Slot st")
      case True
      then have "\<not> Slot st < target" by (simp add: not_less)
      with None True show ?thesis by (simp add: tk)
    next
      case False
      show ?thesis
      proof (cases "BlockSlot (seg ! n) \<le> Slot st")
        case True
        with None False at Suc.IH [OF le, of st] show ?thesis by (simp add: tk)
      next
        case ahead: False
        show ?thesis
        proof (cases "executeStateTransitionStateGen tr ctx (Some st) (Some (seg ! n))")
          case (Inl err)
          with None False ahead at show ?thesis by (simp add: tk)
        next
          case (Inr st')
          with None False ahead at Suc.IH [OF le, of st'] show ?thesis by (simp add: tk)
        qed
      qed
    qed
  qed
qed

lemma replayBlocks_spec:
  "replayBlocks tr ctx (Some st) (map Some seg) target = spec_replay tr ctx st (rev seg) target"
proof (cases "seg = []")
  case True
  then show ?thesis by (simp add: replayBlocks_def)
next
  case False
  with replay_loop_spec [where n = "length seg" and seg = seg and tr = tr and ctx = ctx
        and st = st and target = target] show ?thesis
    by (simp add: replayBlocks_def)
qed

text \<open>
  Claim C3. For every pair of primitives and every context, \<^verbatim>\<open>replayBlocks\<close> on a segment
  returns what the specification's algorithm returns on the reversed segment, that is, it
  visits the blocks from the last element of the segment to the first: it skips a block
  that is not ahead of the state, stops at the first block it meets with the state at or
  beyond the target, and ends with one slot advance when the target is still ahead. With
  the reference primitives and a context that is not cancelled, the calls it makes are
  exactly those of that algorithm; the blocks it applies come from the segment and are
  applied in strictly increasing slot order, each above the slot the state started from.
  For the state at slot 10, the segment of the blocks at 15, 12 and 11 and the target 20
  the calls are: blocks 11, 12 and 15, each after the advance to its slot, and the advance
  from 15 to 20.
\<close>

theorem replayBlocks_order:
  "replayBlocks tr ctx (Some st) (map Some seg) target = spec_replay tr ctx st (rev seg) target
   \<and> (Err ctx = None \<longrightarrow>
      replayBlocks trace_transition ctx (Some ts) (map Some seg) target
        = Inr \<lparr>Slot = spec_replay_slot (Slot ts) (rev seg) target,
               Content = Content ts @ spec_replay_events (Slot ts) (rev seg) target\<rparr>)
   \<and> sorted_wrt (<) (map BlockSlot (applied_blocks (spec_replay_events (Slot ts) (rev seg) target)))
   \<and> (\<forall>b\<in>set (applied_blocks (spec_replay_events (Slot ts) (rev seg) target)).
         b \<in> set seg \<and> Slot ts < BlockSlot b)
   \<and> replayBlocks trace_transition \<lparr>Err = None\<rparr> (Some \<lparr>Slot = 10, Content = []\<rparr>)
        [Some \<lparr>BlockSlot = 15, ParentRoot = 12, Body = 0\<rparr>,
         Some \<lparr>BlockSlot = 12, ParentRoot = 11, Body = 0\<rparr>,
         Some \<lparr>BlockSlot = 11, ParentRoot = 10, Body = 0\<rparr>] 20
       = Inr \<lparr>Slot = 20, Content =
           [SlotsProcessed 10 11, BlockProcessed \<lparr>BlockSlot = 11, ParentRoot = 10, Body = 0\<rparr>,
            SlotsProcessed 11 12, BlockProcessed \<lparr>BlockSlot = 12, ParentRoot = 11, Body = 0\<rparr>,
            SlotsProcessed 12 15, BlockProcessed \<lparr>BlockSlot = 15, ParentRoot = 12, Body = 0\<rparr>,
            SlotsProcessed 15 20]\<rparr>"
proof -
  have run: "replayBlocks trace_transition ctx (Some ts) (map Some seg) target
        = Inr \<lparr>Slot = spec_replay_slot (Slot ts) (rev seg) target,
               Content = Content ts @ spec_replay_events (Slot ts) (rev seg) target\<rparr>"
    if "Err ctx = None"
  proof (cases "seg = []")
    case True
    then show ?thesis
      by (cases "Slot ts < target") (simp_all add: replayBlocks_def trace_advance [OF that])
  next
    case False
    with trace_replay_loop [OF that, where n = "length seg" and seg = seg and st = ts
        and target = target] show ?thesis
      by (simp add: replayBlocks_def)
  qed
  have inc: "sorted_wrt (<)
      (map BlockSlot (applied_blocks (spec_replay_events (Slot ts) (rev seg) target)))"
    by (rule spec_replay_events_applied_increasing)
  have mem: "\<forall>b\<in>set (applied_blocks (spec_replay_events (Slot ts) (rev seg) target)).
         b \<in> set seg \<and> Slot ts < BlockSlot b"
    using spec_replay_events_applied_from_segment [of "Slot ts" "rev seg" target]
      spec_replay_events_applied_above [of "Slot ts" "rev seg" target]
    by auto
  have ex: "replayBlocks trace_transition \<lparr>Err = None\<rparr> (Some \<lparr>Slot = 10, Content = []\<rparr>)
        [Some \<lparr>BlockSlot = 15, ParentRoot = 12, Body = 0\<rparr>,
         Some \<lparr>BlockSlot = 12, ParentRoot = 11, Body = 0\<rparr>,
         Some \<lparr>BlockSlot = 11, ParentRoot = 10, Body = 0\<rparr>] 20
       = Inr \<lparr>Slot = 20, Content =
           [SlotsProcessed 10 11, BlockProcessed \<lparr>BlockSlot = 11, ParentRoot = 10, Body = 0\<rparr>,
            SlotsProcessed 11 12, BlockProcessed \<lparr>BlockSlot = 12, ParentRoot = 11, Body = 0\<rparr>,
            SlotsProcessed 12 15, BlockProcessed \<lparr>BlockSlot = 15, ParentRoot = 12, Body = 0\<rparr>,
            SlotsProcessed 15 20]\<rparr>"
    by (simp add: replayBlocks_def executeStateTransitionStateGen_def ReplayProcessSlots_def
        trace_transition_def numeral_3_eq_3)
  from replayBlocks_spec [of tr ctx st seg target] run inc mem ex show ?thesis by blast
qed

theorem replayBlocks_order_witness:
  "replayBlocks trace_transition \<lparr>Err = None\<rparr> (Some \<lparr>Slot = 10, Content = []\<rparr>)
      (map Some [\<lparr>BlockSlot = 15, ParentRoot = 12, Body = 0\<rparr>,
                 \<lparr>BlockSlot = 12, ParentRoot = 11, Body = 0\<rparr>,
                 \<lparr>BlockSlot = 11, ParentRoot = 10, Body = 0\<rparr>]) 20
     = Inr \<lparr>Slot = 20, Content =
         [SlotsProcessed 10 11, BlockProcessed \<lparr>BlockSlot = 11, ParentRoot = 10, Body = 0\<rparr>,
          SlotsProcessed 11 12, BlockProcessed \<lparr>BlockSlot = 12, ParentRoot = 11, Body = 0\<rparr>,
          SlotsProcessed 12 15, BlockProcessed \<lparr>BlockSlot = 15, ParentRoot = 12, Body = 0\<rparr>,
          SlotsProcessed 15 20]\<rparr>
   \<and> sorted_wrt (<) (map BlockSlot
        [\<lparr>BlockSlot = 11, ParentRoot = 10, Body = 0\<rparr>,
         \<lparr>BlockSlot = 12, ParentRoot = 11, Body = 0\<rparr>,
         \<lparr>BlockSlot = 15, ParentRoot = 12, Body = 0\<rparr>])"
proof -
  let ?seg = "[\<lparr>BlockSlot = 15, ParentRoot = 12, Body = 0\<rparr>,
        \<lparr>BlockSlot = 12, ParentRoot = 11, Body = 0\<rparr>,
        \<lparr>BlockSlot = 11, ParentRoot = 10, Body = 0\<rparr>]"
  let ?ts = "\<lparr>Slot = 10, Content = ([] :: event list)\<rparr>"
  have c: "Err \<lparr>Err = None\<rparr> = None" by simp
  from replayBlocks_order [where ctx = "\<lparr>Err = None\<rparr>" and ts = ?ts and seg = ?seg
      and target = 20 and tr = trace_transition and st = ?ts] c
  have "replayBlocks trace_transition \<lparr>Err = None\<rparr> (Some ?ts) (map Some ?seg) 20
          = Inr \<lparr>Slot = spec_replay_slot (Slot ?ts) (rev ?seg) 20,
                 Content = Content ?ts @ spec_replay_events (Slot ?ts) (rev ?seg) 20\<rparr>"
    by blast
  then show ?thesis by simp
qed

subsection \<open>The canonical segment\<close>




lemma narrow_loop_terminal_last:
  assumes "blockRoots ! (n - 1) = r"
      and "3 \<le> n \<longrightarrow> blocks ! (n - 1) \<noteq> None \<and> blocks ! (n - 2) \<noteq> None"
  shows "narrow_loop ctx blocks blockRoots r n = Inr n"
  using assms by (auto simp: narrow_loop.simps [of _ _ _ _ n] split: option.splits)















subsection \<open>The terminal disambiguation\<close>

text \<open>
  Claim C2, at the batch the claim names: two blocks of the same slot, the older one (stored
  first) being the end block. The rule of the specification narrows the window to length 1
  and finds the end root there; \<^verbatim>\<open>loadBlocks\<close> does not enter its narrowing loop, compares the
  end root with the root of the newer block and fails.
\<close>

theorem loadBlocks_two_blocks_same_slot:
  "loadBlocks
      (fixed_store [Some \<lparr>BlockSlot = 5, ParentRoot = 9, Body = 10\<rparr>,
                    Some \<lparr>BlockSlot = 5, ParentRoot = 9, Body = 11\<rparr>] [1, 2] [])
      \<lparr>Err = None\<rparr> 5 5 1
     = Inl TerminalNotFound
   \<and> spec_narrow [\<lparr>BlockSlot = 5, ParentRoot = 9, Body = 10\<rparr>,
                  \<lparr>BlockSlot = 5, ParentRoot = 9, Body = 11\<rparr>] [1, 2] 1 2 = 1
   \<and> [1, 2 :: root] ! (1 - 1) = 1"
  by code_simp

subsection \<open>The finalized segment\<close>

lemma finalized_loop_filter:
  "n \<le> length bs \<Longrightarrow> n \<le> length bRoots \<Longrightarrow>
     finalized_loop db ctx bs bRoots n fbs
       = fbs @ map fst (filter (\<lambda>(b, r). IsFinalizedBlock db ctx r)
                          (rev (zip (take n bs) (take n bRoots))))"
proof (induction n arbitrary: fbs)
  case 0
  show ?case by simp
next
  case (Suc n)
  then have n: "n < length bs" "n < length bRoots" by simp_all
  then have "zip (take (Suc n) bs) (take (Suc n) bRoots)
               = zip (take n bs) (take n bRoots) @ [(bs ! n, bRoots ! n)]"
    by (simp add: take_Suc_conv_app_nth)
  moreover from n have "n \<le> length bs" "n \<le> length bRoots" by simp_all
  ultimately show ?case
    using Suc.IH [of "fbs @ [bs ! n]"] Suc.IH [of fbs] by simp
qed

lemma loadFinalizedBlocks_result:
  "loadFinalizedBlocks db ctx startSlot endSlot
     = (case Blocks db ctx \<lparr>StartSlot = startSlot, EndSlot = endSlot\<rparr> of
          Inl err \<Rightarrow> Inl err
        | Inr (bs, bRoots) \<Rightarrow>
            if length bs \<noteq> length bRoots then Inl StoreInconsistency
            else Inr (map fst (filter (\<lambda>(b, r). IsFinalizedBlock db ctx r) (rev (zip bs bRoots)))))"
proof (cases "Blocks db ctx \<lparr>StartSlot = startSlot, EndSlot = endSlot\<rparr>")
  case (Inl err)
  then show ?thesis by (simp add: loadFinalizedBlocks_def)
next
  case (Inr p)
  obtain bs bRoots where p: "p = (bs, bRoots)" by (cases p)
  show ?thesis
  proof (cases "length bs = length bRoots")
    case False
    with Inr p show ?thesis by (simp add: loadFinalizedBlocks_def)
  next
    case True
    with finalized_loop_filter [of "length bs" bs bRoots db ctx "[]"]
    have "finalized_loop db ctx bs bRoots (length bs) []
            = map fst (filter (\<lambda>(b, r). IsFinalizedBlock db ctx r) (rev (zip bs bRoots)))"
      by simp
    with Inr p True show ?thesis by (simp add: loadFinalizedBlocks_def)
  qed
qed

subsection \<open>Range validation\<close>

text \<open>
  Claim C8, as amended. For a range with start above end, \<^verbatim>\<open>loadBlocks\<close> fails with
  \<open>InvalidRange\<close> whatever the store is, that is, without a query. \<^verbatim>\<open>loadFinalizedBlocks\<close>
  has no range check of its own. For every range, inverted or not, it hands the range to
  the store and its result is this function of the store's answer: the store's error as it
  is; the count mismatch error; or else the blocks of the batch whose root the store calls
  finalized, in the reverse of the order of the batch. An inverted range is refused by
  \<^verbatim>\<open>loadFinalizedBlocks\<close> only in so far as the store refuses it.
\<close>

theorem invalid_range_checked_by_loadBlocks_only:
  "(startSlot > endSlot \<longrightarrow>
      (\<forall>db'. loadBlocks db' ctx startSlot endSlot r = Inl (InvalidRange startSlot endSlot)))
   \<and> loadFinalizedBlocks db ctx startSlot endSlot
       = (case Blocks db ctx \<lparr>StartSlot = startSlot, EndSlot = endSlot\<rparr> of
            Inl err \<Rightarrow> Inl err
          | Inr (bs, bRoots) \<Rightarrow>
              if length bs \<noteq> length bRoots then Inl StoreInconsistency
              else Inr (map fst (filter (\<lambda>(b, r). IsFinalizedBlock db ctx r)
                                   (rev (zip bs bRoots)))))"
  using loadFinalizedBlocks_result [of db ctx startSlot endSlot]
  by (simp add: loadBlocks_def)

theorem invalid_range_checked_by_loadBlocks_only_witness:
  "(5 :: slot) > 3
   \<and> loadBlocks (failing_store ''database closed'') \<lparr>Err = None\<rparr> 5 3 7 = Inl (InvalidRange 5 3)
   \<and> loadFinalizedBlocks
        (range_store [(\<lparr>BlockSlot = 4, ParentRoot = 9, Body = 10\<rparr>, 7)] [7]) \<lparr>Err = None\<rparr> 5 3
       = Inl (InvalidRange 5 3)
   \<and> loadFinalizedBlocks
        (range_store [(\<lparr>BlockSlot = 4, ParentRoot = 9, Body = 10\<rparr>, 7),
                      (\<lparr>BlockSlot = 5, ParentRoot = 7, Body = 11\<rparr>, 8),
                      (\<lparr>BlockSlot = 5, ParentRoot = 7, Body = 12\<rparr>, 9)] [7, 8]) \<lparr>Err = None\<rparr> 3 5
       = Inr [Some \<lparr>BlockSlot = 5, ParentRoot = 7, Body = 11\<rparr>,
              Some \<lparr>BlockSlot = 4, ParentRoot = 9, Body = 10\<rparr>]"
proof -
  have h: "(5 :: slot) > 3" by simp
  have a: "loadBlocks (failing_store ''database closed'') \<lparr>Err = None\<rparr> 5 3 7 = Inl (InvalidRange 5 3)"
    using invalid_range_checked_by_loadBlocks_only [of 3 5 "\<lparr>Err = None\<rparr>" 7] h by blast
  have b: "loadFinalizedBlocks
        (range_store [(\<lparr>BlockSlot = 4, ParentRoot = 9, Body = 10\<rparr>, 7)] [7]) \<lparr>Err = None\<rparr> 5 3
       = Inl (InvalidRange 5 3)"
    using invalid_range_checked_by_loadBlocks_only
      [of 3 5 "\<lparr>Err = None\<rparr>" 7 "range_store [(\<lparr>BlockSlot = 4, ParentRoot = 9, Body = 10\<rparr>, 7)] [7]"]
    by (simp add: range_store_def)
  have c: "loadFinalizedBlocks
        (range_store [(\<lparr>BlockSlot = 4, ParentRoot = 9, Body = 10\<rparr>, 7),
                      (\<lparr>BlockSlot = 5, ParentRoot = 7, Body = 11\<rparr>, 8),
                      (\<lparr>BlockSlot = 5, ParentRoot = 7, Body = 12\<rparr>, 9)] [7, 8]) \<lparr>Err = None\<rparr> 3 5
       = Inr [Some \<lparr>BlockSlot = 5, ParentRoot = 7, Body = 11\<rparr>,
              Some \<lparr>BlockSlot = 4, ParentRoot = 9, Body = 10\<rparr>]"
    using invalid_range_checked_by_loadBlocks_only
      [of 5 3 "\<lparr>Err = None\<rparr>" 7 "range_store [(\<lparr>BlockSlot = 4, ParentRoot = 9, Body = 10\<rparr>, 7),
                      (\<lparr>BlockSlot = 5, ParentRoot = 7, Body = 11\<rparr>, 8),
                      (\<lparr>BlockSlot = 5, ParentRoot = 7, Body = 12\<rparr>, 9)] [7, 8]"]
    by (simp add: range_store_def)
  from h a b c show ?thesis by blast
qed

text \<open>
  The claim as it is stated fails for \<^verbatim>\<open>loadFinalizedBlocks\<close>: on the inverted range from 5
  to 3 and a store whose query fails, \<^verbatim>\<open>loadBlocks\<close> returns \<open>InvalidRange\<close> and never
  reaches the store, while \<^verbatim>\<open>loadFinalizedBlocks\<close> queries the store and returns the error
  of the query.
\<close>

theorem loadFinalizedBlocks_invalid_range_counterexample:
  "(5 :: slot) > 3
   \<and> loadBlocks (failing_store ''database closed'') \<lparr>Err = None\<rparr> 5 3 7 = Inl (InvalidRange 5 3)
   \<and> loadFinalizedBlocks (failing_store ''database closed'') \<lparr>Err = None\<rparr> 5 3
       = Inl (External ''database closed'')"
  by (simp add: loadBlocks_def loadFinalizedBlocks_def failing_store_def)

subsection \<open>Cancellation\<close>

lemma replayBlocks_cancelled:
  "Err ctx = Some e \<Longrightarrow> seg \<noteq> [] \<Longrightarrow> replayBlocks tr ctx (Some st) seg target = Inl (Cancelled e)"
  by (cases seg) (simp_all add: replayBlocks_def)

lemma narrow_loop_cancelled:
  "Err ctx = Some e \<Longrightarrow> 3 \<le> len \<Longrightarrow> blocks ! (len - 1) = Some b1 \<Longrightarrow> blocks ! (len - 2) = Some b2
     \<Longrightarrow> BlockSlot b1 = BlockSlot b2 \<Longrightarrow> blockRoots ! (len - 1) \<noteq> r
     \<Longrightarrow> narrow_loop ctx blocks blockRoots r len = Inl (Cancelled e)"
  by (simp add: narrow_loop.simps [of _ _ _ _ len])

lemma loadBlocks_cancelled:
  assumes "Err ctx = Some e"
      and "Blocks db ctx \<lparr>StartSlot = startSlot, EndSlot = endSlot\<rparr> = Inr (blocks, blockRoots)"
      and "startSlot \<le> endSlot" and "length blocks = length blockRoots"
      and "2 \<le> length blocks" and "None \<notin> set blocks" and "last blockRoots = r"
  shows "loadBlocks db ctx startSlot endSlot r = Inl (Cancelled e)"
proof -
  let ?n = "length blocks"
  from assms(5) have ne: "blocks \<noteq> []" by auto
  from assms(6) have nonnil: "\<forall>i<?n. blocks ! i \<noteq> None"
    by (metis nth_mem)
  from assms(4,7) ne have root: "blockRoots ! (?n - 1) = r"
    by (metis last_conv_nth length_0_conv)
  from nonnil assms(5) have "3 \<le> ?n \<longrightarrow> blocks ! (?n - 1) \<noteq> None \<and> blocks ! (?n - 2) \<noteq> None"
    by simp
  from narrow_loop_terminal_last [OF root this]
  have nar: "narrow_loop ctx blocks blockRoots r ?n = Inr ?n" .
  from assms(5) obtain k where k: "?n - 1 = Suc k"
    by (cases "?n - 1") auto
  with assms(1) have "filter_loop ctx blocks blockRoots (?n - 1) [blocks ! (?n - 1)] = Inl (Cancelled e)"
    by simp
  moreover from assms(4) ne have "blockRoots \<noteq> []" by auto
  ultimately show ?thesis
    using assms(2,3,4) ne nar root by (simp add: loadBlocks_def not_less [symmetric])
qed

text \<open>
  Claim C9, with the loop that misses the check. Under a cancelled context every
  iteration of the block loop of \<^verbatim>\<open>replayBlocks\<close> and of the two loops of \<^verbatim>\<open>loadBlocks\<close>
  returns the context's error at its head, whatever state or partial segment the loop holds
  at that point, and so do the two functions as a whole when a loop is entered. The loop of
  \<^verbatim>\<open>loadFinalizedBlocks\<close> has no such check: under the same cancelled context, whenever the
  store has answered the query with a batch, the loop runs to its end and the function
  returns all the finalized blocks of the batch, where the claim has it abort with
  \<open>Cancelled\<close>.
\<close>

theorem loadFinalizedBlocks_ignores_cancellation:
  "Err ctx = Some e \<longrightarrow>
      (\<forall>st i. replay_loop tr ctx st seg target (Suc i) = Inl (Cancelled e))
    \<and> (\<forall>st. seg \<noteq> [] \<longrightarrow> replayBlocks tr ctx (Some st) seg target = Inl (Cancelled e))
    \<and> (\<forall>len b1 b2. 3 \<le> len \<and> blocks ! (len - 1) = Some b1 \<and> blocks ! (len - 2) = Some b2
          \<and> BlockSlot b1 = BlockSlot b2 \<and> blockRoots ! (len - 1) \<noteq> r
          \<longrightarrow> narrow_loop ctx blocks blockRoots r len = Inl (Cancelled e))
    \<and> (\<forall>i filteredBlocks. filter_loop ctx blocks blockRoots (Suc i) filteredBlocks = Inl (Cancelled e))
    \<and> (\<forall>db startSlot endSlot.
          Blocks db ctx \<lparr>StartSlot = startSlot, EndSlot = endSlot\<rparr> = Inr (blocks, blockRoots)
          \<and> startSlot \<le> endSlot \<and> length blocks = length blockRoots \<and> 2 \<le> length blocks
          \<and> None \<notin> set blocks \<and> last blockRoots = r
          \<longrightarrow> loadBlocks db ctx startSlot endSlot r = Inl (Cancelled e))
    \<and> (\<forall>db startSlot endSlot.
          Blocks db ctx \<lparr>StartSlot = startSlot, EndSlot = endSlot\<rparr> = Inr (blocks, blockRoots)
          \<and> length blocks = length blockRoots
          \<longrightarrow> loadFinalizedBlocks db ctx startSlot endSlot
                = Inr (map fst (filter (\<lambda>(b, r). IsFinalizedBlock db ctx r)
                                  (rev (zip blocks blockRoots)))))"
proof (intro impI conjI allI)
  fix db :: beacon_db and startSlot endSlot :: slot
  assume "Blocks db ctx \<lparr>StartSlot = startSlot, EndSlot = endSlot\<rparr> = Inr (blocks, blockRoots)
          \<and> length blocks = length blockRoots"
  then show "loadFinalizedBlocks db ctx startSlot endSlot
                = Inr (map fst (filter (\<lambda>(b, r). IsFinalizedBlock db ctx r)
                                  (rev (zip blocks blockRoots))))"
    by (simp add: loadFinalizedBlocks_result)
next
  fix db :: beacon_db and startSlot endSlot :: slot
  assume "Err ctx = Some e"
    and "Blocks db ctx \<lparr>StartSlot = startSlot, EndSlot = endSlot\<rparr> = Inr (blocks, blockRoots)
          \<and> startSlot \<le> endSlot \<and> length blocks = length blockRoots \<and> 2 \<le> length blocks
          \<and> None \<notin> set blocks \<and> last blockRoots = r"
  then show "loadBlocks db ctx startSlot endSlot r = Inl (Cancelled e)"
    by (intro loadBlocks_cancelled [of ctx e db startSlot endSlot blocks blockRoots r]) simp_all
next
  fix len b1 b2
  assume "Err ctx = Some e"
    and "3 \<le> len \<and> blocks ! (len - 1) = Some b1 \<and> blocks ! (len - 2) = Some b2
          \<and> BlockSlot b1 = BlockSlot b2 \<and> blockRoots ! (len - 1) \<noteq> r"
  then show "narrow_loop ctx blocks blockRoots r len = Inl (Cancelled e)"
    by (intro narrow_loop_cancelled [of ctx e len blocks b1 b2 blockRoots r]) simp_all
qed (simp_all add: replayBlocks_cancelled)

theorem loadFinalizedBlocks_ignores_cancellation_witness:
  "replayBlocks trace_transition \<lparr>Err = Some Canceled\<rparr> (Some \<lparr>Slot = 10, Content = []\<rparr>)
      [Some \<lparr>BlockSlot = 12, ParentRoot = 7, Body = 10\<rparr>] 20 = Inl (Cancelled Canceled)
   \<and> loadBlocks (range_store [(\<lparr>BlockSlot = 4, ParentRoot = 9, Body = 10\<rparr>, 7),
                               (\<lparr>BlockSlot = 5, ParentRoot = 7, Body = 11\<rparr>, 8)] [7, 8])
        \<lparr>Err = Some Canceled\<rparr> 4 5 8 = Inl (Cancelled Canceled)
   \<and> loadFinalizedBlocks (range_store [(\<lparr>BlockSlot = 4, ParentRoot = 9, Body = 10\<rparr>, 7),
                                        (\<lparr>BlockSlot = 5, ParentRoot = 7, Body = 11\<rparr>, 8)] [7, 8])
        \<lparr>Err = Some Canceled\<rparr> 4 5
       = Inr [Some \<lparr>BlockSlot = 5, ParentRoot = 7, Body = 11\<rparr>,
              Some \<lparr>BlockSlot = 4, ParentRoot = 9, Body = 10\<rparr>]"
proof -
  let ?blocks = "[Some \<lparr>BlockSlot = 4, ParentRoot = 9, Body = 10\<rparr>,
                  Some \<lparr>BlockSlot = 5, ParentRoot = 7, Body = 11\<rparr>]"
  let ?db = "range_store [(\<lparr>BlockSlot = 4, ParentRoot = 9, Body = 10\<rparr>, 7),
                          (\<lparr>BlockSlot = 5, ParentRoot = 7, Body = 11\<rparr>, 8)] [7, 8]"
  let ?ctx = "\<lparr>Err = Some Canceled\<rparr>"
  have c: "Err ?ctx = Some Canceled" by simp
  have ne: "[Some \<lparr>BlockSlot = 12, ParentRoot = 7, Body = 10\<rparr>] \<noteq> []" by simp
  have q: "Blocks ?db ?ctx \<lparr>StartSlot = 4, EndSlot = 5\<rparr> = Inr (?blocks, [7, 8])"
    by (simp add: range_store_def)
  have p: "(4 :: slot) \<le> 5 \<and> length ?blocks = length [7, 8 :: root] \<and> 2 \<le> length ?blocks
      \<and> None \<notin> set ?blocks \<and> last [7, 8 :: root] = 8"
    by simp
  have f: "map fst (filter (\<lambda>(b, r). IsFinalizedBlock ?db ?ctx r) (rev (zip ?blocks [7, 8])))
      = [Some \<lparr>BlockSlot = 5, ParentRoot = 7, Body = 11\<rparr>,
         Some \<lparr>BlockSlot = 4, ParentRoot = 9, Body = 10\<rparr>]"
    by (simp add: range_store_def)
  from loadFinalizedBlocks_ignores_cancellation [of ?ctx Canceled trace_transition
      "[Some \<lparr>BlockSlot = 12, ParentRoot = 7, Body = 10\<rparr>]" 20 ?blocks "[7, 8]" 8] c
  have all: "(\<forall>st. [Some \<lparr>BlockSlot = 12, ParentRoot = 7, Body = 10\<rparr>] \<noteq> [] \<longrightarrow>
        replayBlocks trace_transition ?ctx (Some st) [Some \<lparr>BlockSlot = 12, ParentRoot = 7, Body = 10\<rparr>] 20
          = Inl (Cancelled Canceled))"
    and lb: "(\<forall>db startSlot endSlot.
          Blocks db ?ctx \<lparr>StartSlot = startSlot, EndSlot = endSlot\<rparr> = Inr (?blocks, [7, 8])
          \<and> startSlot \<le> endSlot \<and> length ?blocks = length [7, 8 :: root] \<and> 2 \<le> length ?blocks
          \<and> None \<notin> set ?blocks \<and> last [7, 8 :: root] = 8
          \<longrightarrow> loadBlocks db ?ctx startSlot endSlot 8 = Inl (Cancelled Canceled))"
    and lf: "(\<forall>db startSlot endSlot.
          Blocks db ?ctx \<lparr>StartSlot = startSlot, EndSlot = endSlot\<rparr> = Inr (?blocks, [7, 8])
          \<and> length ?blocks = length [7, 8 :: root]
          \<longrightarrow> loadFinalizedBlocks db ?ctx startSlot endSlot
                = Inr (map fst (filter (\<lambda>(b, r). IsFinalizedBlock db ?ctx r)
                                  (rev (zip ?blocks [7, 8])))))"
    by blast+
  from all ne have 1: "replayBlocks trace_transition ?ctx (Some \<lparr>Slot = 10, Content = []\<rparr>)
      [Some \<lparr>BlockSlot = 12, ParentRoot = 7, Body = 10\<rparr>] 20 = Inl (Cancelled Canceled)"
    by blast
  from lb q p have 2: "loadBlocks ?db ?ctx 4 5 8 = Inl (Cancelled Canceled)"
    by blast
  from lf q p have "loadFinalizedBlocks ?db ?ctx 4 5
      = Inr (map fst (filter (\<lambda>(b, r). IsFinalizedBlock ?db ?ctx r) (rev (zip ?blocks [7, 8]))))"
    by blast
  with f have 3: "loadFinalizedBlocks ?db ?ctx 4 5
       = Inr [Some \<lparr>BlockSlot = 5, ParentRoot = 7, Body = 11\<rparr>,
              Some \<lparr>BlockSlot = 4, ParentRoot = 9, Body = 10\<rparr>]"
    by (simp only:)
  from 1 2 3 show ?thesis by (intro conjI)
qed

end
